theory Spec2Isabelle
  imports Complex_Main
begin

section \<open>Python values used by the transcript extractor\<close>

text \<open>
  The program is a single Python module built around the class
  \<open>YouTubeTranscriptExtractor\<close>. Python integers are unbounded and are modelled as
  \<open>int\<close>. The \<open>start\<close> of a transcript entry is a Python number (an \<open>int\<close> or a
  \<open>float\<close>); it is modelled as the real number it denotes, so \<open>//\<close> and \<open>%\<close> are the
  exact floor division and remainder, and the rounding of binary floating point is not
  part of the model. A Python \<open>str\<close> is modelled as a HOL \<open>string\<close>, one \<open>char\<close> per code
  point below 256.
\<close>

subsection \<open>Exceptions\<close>

text \<open>
  A raised exception is a value carrying the message that \<open>str(e)\<close> returns. The module
  raises \<open>Exception\<close> and \<open>ValueError\<close> itself; \<open>OSError\<close> comes from opening a file
  and \<open>ProviderError\<close> stands for whatever the transcript library raises. All of them
  derive from Python's \<open>Exception\<close>, so both \<open>except:\<close> and \<open>except Exception\<close>
  catch them.
\<close>

datatype exn = Exception string | ValueError string | OSError string | ProviderError string

fun str_exn :: "exn \<Rightarrow> string" where
  "str_exn (Exception m) = m"
| "str_exn (ValueError m) = m"
| "str_exn (OSError m) = m"
| "str_exn (ProviderError m) = m"

subsection \<open>Numbers\<close>

definition py_floordiv :: "real \<Rightarrow> real \<Rightarrow> real" where
  \<comment> \<open>\<open>x // y\<close> on numbers: the floor of the quotient, still a number of the same kind.\<close>
  "py_floordiv x y = of_int \<lfloor>x / y\<rfloor>"

definition py_mod :: "real \<Rightarrow> real \<Rightarrow> real" where
  \<comment> \<open>\<open>x % y\<close>: the remainder that goes with \<open>//\<close>, with the sign of the divisor.\<close>
  "py_mod x y = x - y * of_int \<lfloor>x / y\<rfloor>"

definition py_int :: "real \<Rightarrow> int" where
  \<comment> \<open>\<open>int(x)\<close>: truncation towards zero.\<close>
  "py_int x = (if 0 \<le> x then \<lfloor>x\<rfloor> else \<lceil>x\<rceil>)"

function py_range :: "int \<Rightarrow> int \<Rightarrow> int \<Rightarrow> int list" where
  "py_range i stop step =
     (if 0 < step \<and> i < stop then i # py_range (i + step) stop step
      else if step < 0 \<and> stop < i then i # py_range (i + step) stop step
      else [])"
  by pat_completeness auto
termination
  by (relation "measure (\<lambda>(i, stop, step). nat (if 0 < step then stop - i else i - stop))") auto

declare py_range.simps [simp del]

subsection \<open>Decimal rendering and the format specification \<open>02d\<close>\<close>

definition digit_char :: "nat \<Rightarrow> char" where
  "digit_char d = ''0123456789'' ! (d mod 10)"

fun str_nat :: "nat \<Rightarrow> string" where
  "str_nat n = (if n < 10 then [digit_char n] else str_nat (n div 10) @ [digit_char (n mod 10)])"

declare str_nat.simps [simp del]

definition str_int :: "int \<Rightarrow> string" where
  \<comment> \<open>\<open>str(i)\<close> and \<open>f"{i}"\<close> for an integer.\<close>
  "str_int i = (if i < 0 then CHR ''-'' # str_nat (nat (- i)) else str_nat (nat i))"

definition fmt_02d :: "int \<Rightarrow> string" where
  \<comment> \<open>\<open>f"{i:02d}"\<close>: sign-aware zero padding to a minimum width of 2, the sign counted
      in the width; longer renderings are kept whole.\<close>
  "fmt_02d i =
     (if i < 0
      then CHR ''-'' # replicate (1 - length (str_nat (nat (- i)))) CHR ''0'' @ str_nat (nat (- i))
      else replicate (2 - length (str_nat (nat i))) CHR ''0'' @ str_nat (nat i))"

definition str_opt :: "string option \<Rightarrow> string" where
  \<comment> \<open>\<open>f"{v}"\<close> for a value that is a string or \<open>None\<close>.\<close>
  "str_opt v = (case v of None \<Rightarrow> ''None'' | Some s \<Rightarrow> s)"

subsection \<open>Strings\<close>

definition isspace :: "char \<Rightarrow> bool" where
  \<comment> \<open>The whitespace of \<open>str.strip()\<close> and of \<open>\s\<close> in a \<open>str\<close> pattern, for code points
      below 256: tab, line feed, vertical tab, form feed, carriage return, the four
      separators 0x1C to 0x1F, space, next line (0x85) and no-break space (0xA0).\<close>
  "isspace c \<longleftrightarrow>
     c \<in> {CHR 0x09, CHR 0x0A, CHR 0x0B, CHR 0x0C, CHR 0x0D, CHR 0x1C, CHR 0x1D, CHR 0x1E,
          CHR 0x1F, CHR 0x20, CHR 0x85, CHR 0xA0}"

definition strip :: "string \<Rightarrow> string" where
  \<comment> \<open>\<open>s.strip()\<close>: the slice between the first and the last character that is not
      whitespace.\<close>
  "strip s = rev (dropWhile isspace (rev (dropWhile isspace s)))"

fun join :: "string \<Rightarrow> string list \<Rightarrow> string" where
  \<comment> \<open>\<open>sep.join(xs)\<close>\<close>
  "join sep [] = []"
| "join sep [x] = x"
| "join sep (x # y # ys) = x @ sep @ join sep (y # ys)"

function re_sub_spaces :: "string \<Rightarrow> string" where
  \<comment> \<open>\<open>re.sub(r'\s+', ' ', s)\<close>: scanning from the left, each match of \<open>\s+\<close> is greedy,
      so it takes the whole run of whitespace, and is replaced by one space.\<close>
  "re_sub_spaces [] = []"
| "re_sub_spaces (c # cs) =
     (if isspace c then CHR '' '' # re_sub_spaces (dropWhile isspace cs)
      else c # re_sub_spaces cs)"
  by pat_completeness auto
termination
  by (relation "measure length") (auto simp: length_dropWhile_le less_Suc_eq_le)

definition py_slice :: "string \<Rightarrow> int \<Rightarrow> int \<Rightarrow> string" where
  \<comment> \<open>\<open>s[i:j]\<close>: negative bounds count from the end and bounds are clamped to the string.\<close>
  "py_slice s i j =
     (let n = int (length s);
          lo = (if i < 0 then max (i + n) 0 else min i n);
          hi = (if j < 0 then max (j + n) 0 else min j n)
      in take (nat (hi - lo)) (drop (nat lo) s))"

section \<open>Timestamp conversion\<close>

definition seconds_to_timestamp :: "real \<Rightarrow> string" where
  "seconds_to_timestamp seconds =
     (let hours = py_int (py_floordiv seconds 3600);
          minutes = py_int (py_floordiv (py_mod seconds 3600) 60);
          seconds' = py_int (py_mod seconds 60)
      in if hours > 0
         then fmt_02d hours @ '':'' @ fmt_02d minutes @ '':'' @ fmt_02d seconds'
         else fmt_02d minutes @ '':'' @ fmt_02d seconds')"

section \<open>Formatting and chunking\<close>

text \<open>
  A transcript entry is the dictionary the provider returns for one caption, read by the
  formatter through the keys \<open>'text'\<close> and \<open>'start'\<close>. The key \<open>'text'\<close> is the field
  \<open>entry_text\<close>.
\<close>

record entry =
  entry_text :: string
  start :: real
  duration :: real

text \<open>\<open>format_transcript\<close> returns a string, or a list of strings when it has chunked.\<close>

datatype formatted = Text string | Chunks "string list"

fun timestamped_loop :: "entry list \<Rightarrow> string list \<Rightarrow> string list" where
  \<comment> \<open>The \<open>for entry in transcript_data\<close> loop, with \<open>formatted_text\<close> as its state.\<close>
  "timestamped_loop [] formatted_text = formatted_text"
| "timestamped_loop (entry # rest) formatted_text =
     (let timestamp = seconds_to_timestamp (start entry);
          text = strip (entry_text entry)
      in timestamped_loop rest (formatted_text @ [''['' @ timestamp @ ''] '' @ text]))"

definition format_transcript :: "entry list \<Rightarrow> bool \<Rightarrow> int option \<Rightarrow> formatted" where
  "format_transcript transcript_data include_timestamps chunk_size =
     (let result =
        (if include_timestamps
         then join [CHR 0x0A] (timestamped_loop transcript_data [])
         else strip (re_sub_spaces
                (join '' '' (map (\<lambda>entry. strip (entry_text entry)) transcript_data))))
      in case chunk_size of
           None \<Rightarrow> Text result
         | Some n \<Rightarrow>
             if n \<noteq> 0 \<and> \<not> include_timestamps
             then Chunks (map (\<lambda>i. py_slice result i (i + n))
                            (py_range 0 (int (length result)) n))
             else Text result)"

section \<open>The transcript provider\<close>

text \<open>
  The extractor reads transcripts through the external library \<open>youtube_transcript_api\<close>.
  A \<open>transcript\<close> is one track of a video: its language name and code, whether it was
  generated automatically, and \<open>fetch\<close>, the outcome of downloading its entries (an
  exception or the entries).
\<close>

record transcript =
  language :: string
  language_code :: string
  is_generated :: bool
  fetch :: "exn + entry list"

text \<open>
  A \<open>transcript_list\<close> is the object \<open>YouTubeTranscriptApi.list_transcripts\<close> returns, seen
  through the four operations the extractor uses: the three lookups, which return a
  track or raise, and iteration, which yields the tracks in the provider's order.
\<close>

record transcript_list =
  find_manually_created_transcript :: "string list \<Rightarrow> exn + transcript"
  find_generated_transcript :: "string list \<Rightarrow> exn + transcript"
  find_transcript :: "string list \<Rightarrow> exn + transcript"
  transcripts :: "transcript list"

text \<open>
  Modelled from the spec: the Transcript Catalog Provider, whose code belongs to the
  external library and not to the repository. A catalog is the sequence of its tracks in
  iteration order. A lookup takes the requested codes in order and returns the first
  track of the wanted provenance that matches one; the manual and the generated lookup
  match a track whose language code equals the requested code, and the general lookup
  matches by the provider's own rule \<open>rule\<close>, which may accept regional variants. A
  lookup that matches nothing raises the provider's not-found exception.
\<close>

definition not_found :: exn where
  "not_found = ProviderError ''NoTranscriptFound''"

fun lookup_codes :: "(string \<Rightarrow> transcript \<Rightarrow> bool) \<Rightarrow> transcript list \<Rightarrow> string list \<Rightarrow> exn + transcript" where
  "lookup_codes matches catalog [] = Inl not_found"
| "lookup_codes matches catalog (code # codes) =
     (case List.find (matches code) catalog of
        Some t \<Rightarrow> Inr t
      | None \<Rightarrow> lookup_codes matches catalog codes)"

definition provider :: "(string \<Rightarrow> transcript \<Rightarrow> bool) \<Rightarrow> transcript list \<Rightarrow> transcript_list" where
  "provider rule catalog =
     \<lparr> find_manually_created_transcript =
         lookup_codes (\<lambda>code t. \<not> is_generated t \<and> language_code t = code) catalog,
       find_generated_transcript =
         lookup_codes (\<lambda>code t. is_generated t \<and> language_code t = code) catalog,
       find_transcript = lookup_codes rule catalog,
       transcripts = catalog \<rparr>"

section \<open>The selection cascade: \<open>get_transcript\<close>\<close>

type_synonym selection = "entry list \<times> string \<times> string"

fun manual_loop :: "transcript_list \<Rightarrow> string list \<Rightarrow> selection option" where
  \<comment> \<open>The first \<open>for lang in languages\<close> loop. \<open>Some\<close> is its \<open>return\<close>; \<open>None\<close> is the loop
      running to its end. The bare \<open>except\<close> covers the lookup and the \<open>fetch\<close>.\<close>
  "manual_loop transcript_list [] = None"
| "manual_loop transcript_list (lang # languages) =
     (case find_manually_created_transcript transcript_list [lang] of
        Inl e \<Rightarrow> manual_loop transcript_list languages
      | Inr transcript \<Rightarrow>
          (case fetch transcript of
             Inl e \<Rightarrow> manual_loop transcript_list languages
           | Inr data \<Rightarrow> Some (data, lang, ''manual'')))"

fun generated_loop :: "transcript_list \<Rightarrow> string list \<Rightarrow> selection option" where
  \<comment> \<open>The second \<open>for lang in languages\<close> loop.\<close>
  "generated_loop transcript_list [] = None"
| "generated_loop transcript_list (lang # languages) =
     (case find_generated_transcript transcript_list [lang] of
        Inl e \<Rightarrow> generated_loop transcript_list languages
      | Inr transcript \<Rightarrow>
          (case fetch transcript of
             Inl e \<Rightarrow> generated_loop transcript_list languages
           | Inr data \<Rightarrow> Some (data, lang, ''auto-generated'')))"

definition first_available :: "transcript_list \<Rightarrow> exn + selection" where
  \<comment> \<open>The handler of the last \<open>try\<close>: the first track of the iteration, whose \<open>fetch\<close> is
      no longer guarded, or the exception for an empty list.\<close>
  "first_available transcript_list =
     (case transcripts transcript_list of
        transcript # rest \<Rightarrow>
          (case fetch transcript of
             Inl e \<Rightarrow> Inl e
           | Inr data \<Rightarrow> Inr (data, language_code transcript, ''available''))
      | [] \<Rightarrow> Inl (Exception ''No transcripts available''))"

definition any_available :: "transcript_list \<Rightarrow> exn + selection" where
  \<comment> \<open>The last \<open>try\<close>: the lookup of \<open>'en'\<close> and its \<open>fetch\<close>, and the handler when either
      raises.\<close>
  "any_available transcript_list =
     (case (case find_transcript transcript_list [''en''] of
              Inl e \<Rightarrow> Inl e
            | Inr transcript \<Rightarrow> fetch transcript) of
        Inr data \<Rightarrow> Inr (data, ''en'', ''fallback'')
      | Inl e \<Rightarrow> first_available transcript_list)"

definition cascade :: "transcript_list \<Rightarrow> string list \<Rightarrow> exn + selection" where
  \<comment> \<open>The body of the outer \<open>try\<close> once the transcript list is there.\<close>
  "cascade transcript_list languages =
     (case manual_loop transcript_list languages of
        Some r \<Rightarrow> Inr r
      | None \<Rightarrow>
          (case generated_loop transcript_list languages of
             Some r \<Rightarrow> Inr r
           | None \<Rightarrow> any_available transcript_list))"

definition get_transcript :: "(string \<Rightarrow> exn + transcript_list) \<Rightarrow> string \<Rightarrow> string list \<Rightarrow> exn + selection" where
  \<comment> \<open>\<open>list_transcripts\<close> is \<open>YouTubeTranscriptApi.list_transcripts\<close>. The outer handler
      wraps every exception that reaches it.\<close>
  "get_transcript list_transcripts video_id languages =
     (case (case list_transcripts video_id of
              Inl e \<Rightarrow> Inl e
            | Inr transcript_list \<Rightarrow> cascade transcript_list languages) of
        Inl e \<Rightarrow> Inl (Exception (''Error fetching transcript: '' @ str_exn e))
      | Inr r \<Rightarrow> Inr r)"

subsection \<open>Default arguments\<close>




section \<open>Video identifiers: \<open>extract_video_id\<close>\<close>

definition starts_with :: "string \<Rightarrow> string \<Rightarrow> bool" where
  "starts_with s p \<longleftrightarrow> take (length p) s = p"

definition id_char :: "char \<Rightarrow> bool" where
  \<comment> \<open>The class \<open>[^&\n?#]\<close>.\<close>
  "id_char c \<longleftrightarrow> c \<notin> {CHR ''&'', CHR 0x0A, CHR ''?'', CHR ''#''}"

definition capture_id :: "string \<Rightarrow> string option" where
  \<comment> \<open>The group \<open>([^&\n?#]+)\<close> at the start of \<open>s\<close>; it ends the pattern, so the greedy
      match is the longest one.\<close>
  "capture_id s = (if takeWhile id_char s = [] then None else Some (takeWhile id_char s))"

fun match_alternatives :: "string list \<Rightarrow> string \<Rightarrow> string option" where
  \<comment> \<open>\<open>(?:p1|p2|...)([^&\n?#]+)\<close> at the start of \<open>s\<close>, the alternatives tried in order.\<close>
  "match_alternatives [] s = None"
| "match_alternatives (p # ps) s =
     (case (if starts_with s p then capture_id (drop (length p) s) else None) of
        Some g \<Rightarrow> Some g
      | None \<Rightarrow> match_alternatives ps s)"

fun greedy_dot_star :: "(string \<Rightarrow> string option) \<Rightarrow> string \<Rightarrow> string option" where
  \<comment> \<open>\<open>.*\<close> followed by the rest of the pattern \<open>k\<close>: one more character that is not a
      line feed is taken first, and the match backtracks to a shorter one.\<close>
  "greedy_dot_star k [] = k []"
| "greedy_dot_star k (c # cs) =
     (case (if c \<noteq> CHR 0x0A then greedy_dot_star k cs else None) of
        Some g \<Rightarrow> Some g
      | None \<Rightarrow> k (c # cs))"

fun re_search :: "(string \<Rightarrow> string option) \<Rightarrow> string \<Rightarrow> string option" where
  \<comment> \<open>\<open>re.search\<close>: the pattern is tried at each position from the left; the result is
      group 1 of the first match.\<close>
  "re_search m [] = m []"
| "re_search m (c # cs) = (case m (c # cs) of Some g \<Rightarrow> Some g | None \<Rightarrow> re_search m cs)"

definition pattern1 :: "string \<Rightarrow> string option" where
  "pattern1 = match_alternatives [''youtube.com/watch?v='', ''youtu.be/'', ''youtube.com/embed/'']"

definition pattern2 :: "string \<Rightarrow> string option" where
  "pattern2 s =
     (if starts_with s ''youtube.com/watch?''
      then greedy_dot_star (\<lambda>r. if starts_with r ''v='' then capture_id (drop 2 r) else None)
             (drop (length ''youtube.com/watch?'') s)
      else None)"

definition isalnum :: "char \<Rightarrow> bool" where
  \<comment> \<open>\<open>str.isalnum\<close> on one code point below 256: the ASCII digits and letters, and the
      letters, superscript digits and fractions of Latin-1.\<close>
  "isalnum c \<longleftrightarrow>
     (let n = (of_char c :: nat)
      in (48 \<le> n \<and> n \<le> 57) \<or> (65 \<le> n \<and> n \<le> 90) \<or> (97 \<le> n \<and> n \<le> 122)
         \<or> n \<in> {0xAA, 0xB2, 0xB3, 0xB5, 0xB9, 0xBA, 0xBC, 0xBD, 0xBE}
         \<or> (0xC0 \<le> n \<and> n \<le> 0xD6) \<or> (0xD8 \<le> n \<and> n \<le> 0xF6) \<or> 0xF8 \<le> n)"

definition extract_video_id :: "string \<Rightarrow> exn + string" where
  "extract_video_id url =
     (case re_search pattern1 url of
        Some g \<Rightarrow> Inr g
      | None \<Rightarrow>
          (case re_search pattern2 url of
             Some g \<Rightarrow> Inr g
           | None \<Rightarrow>
               if length url = 11 \<and> list_all isalnum url then Inr url
               else Inl (ValueError ''Invalid YouTube URL or video ID'')))"

section \<open>The programmatic entry point\<close>




section \<open>Saving the output\<close>

text \<open>
  The files of the machine, the clock and the failures of \<open>open\<close> are the state \<open>world\<close>:
  \<open>files\<close> maps a path to its content, \<open>now\<close> is the current time as
  \<open>strftime("%Y%m%d_%H%M%S")\<close> renders it, and \<open>open_error\<close> says for each path whether
  opening it for writing raises.
\<close>

record world =
  files :: "string \<Rightarrow> string option"
  now :: string
  open_error :: "string \<Rightarrow> exn option"

definition save_to_file :: "world \<Rightarrow> string \<Rightarrow> string option \<Rightarrow> string option \<Rightarrow> (exn + string) \<times> world" where
  \<comment> \<open>\<open>not filename\<close> holds for \<open>None\<close> and for the empty string.\<close>
  "save_to_file w text filename video_id =
     (let timestamp = now w;
          filename' =
            (case filename of
               Some f \<Rightarrow>
                 if f \<noteq> [] then f
                 else ''youtube_transcript_'' @ str_opt video_id @ ''_'' @ timestamp @ ''.txt''
             | None \<Rightarrow> ''youtube_transcript_'' @ str_opt video_id @ ''_'' @ timestamp @ ''.txt'')
      in case open_error w filename' of
           Some e \<Rightarrow> (Inl (Exception (''Error saving file: '' @ str_exn e)), w)
         | None \<Rightarrow> (Inr filename', w\<lparr>files := (files w)(filename' \<mapsto> text)\<rparr>))"

definition rfind :: "string \<Rightarrow> char \<Rightarrow> int" where
  \<comment> \<open>\<open>p.rfind(c)\<close>: the last index of \<open>c\<close>, or -1.\<close>
  "rfind p c =
     (if c \<in> set p then int (length p) - 1 - int (length (takeWhile (\<lambda>x. x \<noteq> c) (rev p)))
      else - 1)"

function leading_dots_loop :: "string \<Rightarrow> int \<Rightarrow> int \<Rightarrow> bool" where
  \<comment> \<open>The \<open>while filenameIndex < dotIndex\<close> loop of \<open>splitext\<close>: true when it returns the
      split, false when it runs to its end.\<close>
  "leading_dots_loop p filenameIndex dotIndex =
     (if filenameIndex < dotIndex
      then (if py_slice p filenameIndex (filenameIndex + 1) \<noteq> ''.'' then True
            else leading_dots_loop p (filenameIndex + 1) dotIndex)
      else False)"
  by pat_completeness auto
termination
  by (relation "measure (\<lambda>(p, filenameIndex, dotIndex). nat (dotIndex - filenameIndex))") auto

declare leading_dots_loop.simps [simp del]

definition splitext :: "string \<Rightarrow> string \<times> string" where
  \<comment> \<open>\<open>os.path.splitext\<close> of \<open>posixpath\<close>: the extension starts at the last dot of the
      last path component, unless only dots come before it there.\<close>
  "splitext p =
     (let sepIndex = rfind p CHR ''/'';
          dotIndex = rfind p CHR ''.''
      in if sepIndex < dotIndex \<and> leading_dots_loop p (sepIndex + 1) dotIndex
         then (take (nat dotIndex) p, drop (nat dotIndex) p)
         else (p, []))"

definition chunk_filename :: "string option \<Rightarrow> string \<Rightarrow> nat \<Rightarrow> int \<Rightarrow> string" where
  \<comment> \<open>The name \<open>main\<close> gives chunk \<open>i\<close> of \<open>n\<close>; \<open>output\<close> is \<open>args.output\<close>, and
      \<open>args.output or ...\<close> takes the default for \<open>None\<close> and for the empty string.\<close>
  "chunk_filename output video_id n i =
     (let filename =
        (case output of
           Some f \<Rightarrow>
             if f \<noteq> [] then f
             else ''transcript_chunk_'' @ str_int i @ ''_'' @ video_id @ ''.txt''
         | None \<Rightarrow> ''transcript_chunk_'' @ str_int i @ ''_'' @ video_id @ ''.txt'')
      in if 1 < n
         then (case splitext filename of (base, ext) \<Rightarrow> base @ ''_chunk_'' @ str_int i @ ext)
         else filename)"

fun save_chunks ::
  "world \<Rightarrow> string option \<Rightarrow> string \<Rightarrow> nat \<Rightarrow> int \<Rightarrow> string list \<Rightarrow> (exn + string list) \<times> world" where
  \<comment> \<open>\<open>for i, chunk in enumerate(formatted_text, 1)\<close>, stopped by the first exception;
      the result lists the saved files.\<close>
  "save_chunks w output video_id n i [] = (Inr [], w)"
| "save_chunks w output video_id n i (chunk # rest) =
     (case save_to_file w chunk (Some (chunk_filename output video_id n i)) (Some video_id) of
        (Inl e, w') \<Rightarrow> (Inl e, w')
      | (Inr saved_file, w') \<Rightarrow>
          (case save_chunks w' output video_id n (i + 1) rest of
             (Inl e, w'') \<Rightarrow> (Inl e, w'')
           | (Inr saved, w'') \<Rightarrow> (Inr (saved_file # saved), w'')))"

definition save_output :: "world \<Rightarrow> string option \<Rightarrow> string \<Rightarrow> formatted \<Rightarrow> (exn + string list) \<times> world" where
  \<comment> \<open>The part of \<open>main\<close> that saves \<open>formatted_text\<close>, by \<open>isinstance(formatted_text, list)\<close>.\<close>
  "save_output w output video_id formatted_text =
     (case formatted_text of
        Chunks cs \<Rightarrow> save_chunks w output video_id (length cs) 1 cs
      | Text t \<Rightarrow>
          (case save_to_file w t output (Some video_id) of
             (Inl e, w') \<Rightarrow> (Inl e, w')
           | (Inr saved_file, w') \<Rightarrow> (Inr [saved_file], w')))"

section \<open>The specification's operations\<close>

text \<open>
  The definitions of this section follow the wording of the specification, not the
  code. The theorems below compare the two.
\<close>

subsection \<open>Timestamps\<close>

definition zero_pad2 :: "nat \<Rightarrow> string" where
  \<comment> \<open>A field zero-padded to 2 digits.\<close>
  "zero_pad2 k = (if k < 10 then [CHR ''0'', digit_char k] else str_nat k)"

definition spec_timestamp :: "nat \<Rightarrow> string" where
  \<comment> \<open>The rendering of a whole number of seconds.\<close>
  "spec_timestamp s =
     (let hours = s div 3600; minutes = (s mod 3600) div 60; secs = s mod 60
      in if hours > 0
         then zero_pad2 hours @ '':'' @ zero_pad2 minutes @ '':'' @ zero_pad2 secs
         else zero_pad2 minutes @ '':'' @ zero_pad2 secs)"

subsection \<open>Formatting\<close>

fun trim_left :: "string \<Rightarrow> string" where
  \<comment> \<open>Without its leading whitespace.\<close>
  "trim_left [] = []"
| "trim_left (c # cs) = (if isspace c then trim_left cs else c # cs)"

fun trim_right :: "string \<Rightarrow> string" where
  \<comment> \<open>Without its trailing whitespace: the string ends where only whitespace follows.\<close>
  "trim_right [] = []"
| "trim_right (c # cs) = (if list_all isspace (c # cs) then [] else c # trim_right cs)"

definition spec_trim :: "string \<Rightarrow> string" where
  \<comment> \<open>Surrounding whitespace trimmed.\<close>
  "spec_trim s = trim_right (trim_left s)"

fun collapse_runs :: "bool \<Rightarrow> string \<Rightarrow> string" where
  \<comment> \<open>Every run of whitespace collapsed to one space; the flag says that the scan is
      inside a run, whose space has been written already.\<close>
  "collapse_runs in_run [] = []"
| "collapse_runs in_run (c # cs) =
     (if isspace c
      then (if in_run then collapse_runs True cs else CHR '' '' # collapse_runs True cs)
      else c # collapse_runs False cs)"

definition spec_plain :: "entry list \<Rightarrow> string" where
  \<comment> \<open>Plain mode: join the trimmed texts with one space, collapse, trim.\<close>
  "spec_plain entries =
     spec_trim (collapse_runs False (join '' '' (map (\<lambda>e. spec_trim (entry_text e)) entries)))"

definition spec_line :: "entry \<Rightarrow> string" where
  \<comment> \<open>The line \<open>[T] text\<close> of one entry.\<close>
  "spec_line e = ''['' @ seconds_to_timestamp (start e) @ ''] '' @ spec_trim (entry_text e)"

definition spec_timestamped :: "entry list \<Rightarrow> string" where
  \<comment> \<open>Timestamped mode: the lines in order, one line feed between two lines.\<close>
  "spec_timestamped entries = join [CHR 0x0A] (map spec_line entries)"

fun adjacent_spaces :: "string \<Rightarrow> bool" where
  \<comment> \<open>Two whitespace characters stand next to each other somewhere.\<close>
  "adjacent_spaces (a # b # cs) \<longleftrightarrow> (isspace a \<and> isspace b) \<or> adjacent_spaces (b # cs)"
| "adjacent_spaces cs \<longleftrightarrow> False"

function chunks_of :: "nat \<Rightarrow> string \<Rightarrow> string list" where
  \<comment> \<open>Consecutive slices of \<open>n\<close> characters from left to right; the last one is what is
      left.\<close>
  "chunks_of n s = (if n = 0 \<or> s = [] then [] else take n s # chunks_of n (drop n s))"
  by pat_completeness auto
termination
  by (relation "measure (\<lambda>(n, s). length s)") auto

declare chunks_of.simps [simp del]

subsection \<open>The selection cascade\<close>

definition entries_of :: "transcript \<Rightarrow> entry list" where
  \<comment> \<open>The entries of a track of the specification's catalog, where a track holds its
      entries: what \<open>fetch\<close> delivers.\<close>
  "entries_of t = (case fetch t of Inr entries \<Rightarrow> entries | Inl e \<Rightarrow> [])"

definition first_match :: "bool \<Rightarrow> transcript list \<Rightarrow> string list \<Rightarrow> (transcript \<times> string) option" where
  \<comment> \<open>Scanning the preference list in order: the first track of the given provenance
      whose language code equals the preference entry, with that entry.\<close>
  "first_match generated catalog preferences =
     (case List.find (\<lambda>p. \<exists>t \<in> set catalog. is_generated t = generated \<and> language_code t = p)
             preferences of
        None \<Rightarrow> None
      | Some p \<Rightarrow>
          map_option (\<lambda>t. (t, p))
            (List.find (\<lambda>t. is_generated t = generated \<and> language_code t = p) catalog))"

definition selection_cascade ::
  "(string \<Rightarrow> transcript \<Rightarrow> bool) \<Rightarrow> transcript list \<Rightarrow> string list
     \<Rightarrow> (transcript \<times> string \<times> string) option" where
  \<comment> \<open>The rules in strict priority order; the result is the chosen track, the language
      reported with it and the provenance tag, or nothing for an empty catalog.\<close>
  "selection_cascade rule catalog preferences =
     (case first_match False catalog preferences of
        Some (t, p) \<Rightarrow> Some (t, p, ''manual'')
      | None \<Rightarrow>
          (case first_match True catalog preferences of
             Some (t, p) \<Rightarrow> Some (t, p, ''auto-generated'')
           | None \<Rightarrow>
               (case List.find (rule ''en'') catalog of
                  Some t \<Rightarrow> Some (t, ''en'', ''fallback'')
                | None \<Rightarrow>
                    (case catalog of
                       t # rest \<Rightarrow> Some (t, language_code t, ''available'')
                     | [] \<Rightarrow> None))))"

subsection \<open>Chunk file names\<close>

definition spec_chunk_filename :: "string option \<Rightarrow> string \<Rightarrow> int \<Rightarrow> string" where
  \<comment> \<open>The name of chunk \<open>i\<close> as the specification gives it: from the output path when
      there is one, and the default name otherwise.\<close>
  "spec_chunk_filename output video_id i =
     (case output of
        Some out \<Rightarrow> (case splitext out of (base, ext) \<Rightarrow> base @ ''_chunk_'' @ str_int i @ ext)
      | None \<Rightarrow> ''transcript_chunk_'' @ str_int i @ ''_'' @ video_id @ ''.txt'')"

subsection \<open>Example catalogs\<close>

definition exact_rule :: "string \<Rightarrow> transcript \<Rightarrow> bool" where
  \<comment> \<open>A provider that matches a requested code with the same language code only.\<close>
  "exact_rule code t \<longleftrightarrow> language_code t = code"

definition regional_rule :: "string \<Rightarrow> transcript \<Rightarrow> bool" where
  \<comment> \<open>A provider that also matches the regional variants of the requested code.\<close>
  "regional_rule code t \<longleftrightarrow>
     language_code t = code \<or> starts_with (language_code t) (code @ ''-'')"

definition one_entry :: "string \<Rightarrow> entry list" where
  "one_entry s = [\<lparr>entry_text = s, start = 0, duration = 1\<rparr>]"

definition manual_es :: transcript where
  "manual_es = \<lparr>language = ''Spanish'', language_code = ''es'', is_generated = False,
                fetch = Inr (one_entry ''hola'')\<rparr>"

definition generated_en :: transcript where
  "generated_en = \<lparr>language = ''English (auto-generated)'', language_code = ''en'',
                   is_generated = True, fetch = Inr (one_entry ''hello'')\<rparr>"

definition generated_fr :: transcript where
  "generated_fr = \<lparr>language = ''French (auto-generated)'', language_code = ''fr'',
                   is_generated = True, fetch = Inr (one_entry ''bonjour'')\<rparr>"

definition manual_en_us :: transcript where
  "manual_en_us = \<lparr>language = ''English (United States)'', language_code = ''en-US'',
                   is_generated = False, fetch = Inr (one_entry ''howdy'')\<rparr>"

definition manual_ko :: transcript where
  "manual_ko = \<lparr>language = ''Korean'', language_code = ''ko'', is_generated = False,
                fetch = Inr (one_entry ''annyeong'')\<rparr>"

definition quiet_world :: world where
  \<comment> \<open>No files yet, and every path can be opened for writing.\<close>
  "quiet_world = \<lparr>files = (\<lambda>path. None), now = ''20240131_235959'', open_error = (\<lambda>path. None)\<rparr>"

section \<open>Verification\<close>

subsection \<open>Timestamp conversion\<close>

lemma length_str_nat_ge1: "1 \<le> length (str_nat n)"
  by (induction n rule: str_nat.induct) (subst str_nat.simps, simp)

lemma str_nat_small: "n < 10 \<Longrightarrow> str_nat n = [digit_char n]"
  by (subst str_nat.simps) simp

lemma length_str_nat_big: "10 \<le> n \<Longrightarrow> 2 \<le> length (str_nat n)"
  using length_str_nat_ge1 [of "n div 10"] by (subst str_nat.simps) simp

lemma fmt_02d_nat: "fmt_02d (int k) = zero_pad2 k"
proof (cases "k < 10")
  case True
  then show ?thesis by (simp add: fmt_02d_def zero_pad2_def str_nat_small)
next
  case False
  then have "2 \<le> length (str_nat k)" by (simp add: length_str_nat_big)
  with False show ?thesis by (simp add: fmt_02d_def zero_pad2_def)
qed

lemma py_int_of_int: "py_int (of_int k) = k"
  by (simp add: py_int_def)

lemma py_mod_floor: "0 < d \<Longrightarrow> \<lfloor>py_mod s (of_int d)\<rfloor> = \<lfloor>s\<rfloor> mod d"
proof -
  assume d: "0 < d"
  have "\<lfloor>s / of_int d\<rfloor> = \<lfloor>s\<rfloor> div d"
    using d by (simp add: floor_divide_real_eq_div)
  then have "py_mod s (of_int d) = s - of_int (d * (\<lfloor>s\<rfloor> div d))"
    by (simp add: py_mod_def)
  then have "\<lfloor>py_mod s (of_int d)\<rfloor> = \<lfloor>s\<rfloor> - d * (\<lfloor>s\<rfloor> div d)"
    by (simp only: floor_diff_of_int)
  then show ?thesis by (simp add: minus_mult_div_eq_mod)
qed

lemma py_mod_nonneg: "0 < d \<Longrightarrow> 0 \<le> py_mod s d"
proof -
  assume d: "0 < d"
  have "of_int \<lfloor>s / d\<rfloor> \<le> s / d" by (rule of_int_floor_le)
  then have "of_int \<lfloor>s / d\<rfloor> * d \<le> s" using d by (simp only: pos_le_divide_eq)
  then show ?thesis by (simp add: py_mod_def mult.commute)
qed

lemma hours_eq: "py_int (py_floordiv s 3600) = \<lfloor>s\<rfloor> div 3600"
  using floor_divide_real_eq_div [of 3600 s]
  by (simp add: py_floordiv_def py_int_of_int del: of_int_floor_cancel)

lemma minutes_eq: "py_int (py_floordiv (py_mod s 3600) 60) = (\<lfloor>s\<rfloor> mod 3600) div 60"
proof -
  have "\<lfloor>py_mod s 3600 / 60\<rfloor> = \<lfloor>py_mod s 3600\<rfloor> div 60"
    using floor_divide_real_eq_div [of 60 "py_mod s 3600"] by simp
  also have "\<dots> = (\<lfloor>s\<rfloor> mod 3600) div 60"
    using py_mod_floor [of 3600 s] by simp
  finally show ?thesis
    by (simp add: py_floordiv_def py_int_of_int del: of_int_floor_cancel)
qed

lemma seconds_eq: "py_int (py_mod s 60) = \<lfloor>s\<rfloor> mod 60"
  using py_mod_floor [of 60 s] py_mod_nonneg [of 60 s] by (simp add: py_int_def)

lemma seconds_to_timestamp_floor:
  assumes "0 \<le> s"
  shows "seconds_to_timestamp s = spec_timestamp (nat \<lfloor>s\<rfloor>)"
proof -
  define n where "n = nat \<lfloor>s\<rfloor>"
  have fl: "\<lfloor>s\<rfloor> = int n" using assms by (simp add: n_def)
  have h: "py_int (py_floordiv s 3600) = int (n div 3600)"
    by (simp add: hours_eq fl zdiv_int)
  have m: "py_int (py_floordiv (py_mod s 3600) 60) = int ((n mod 3600) div 60)"
    by (simp add: minutes_eq fl zdiv_int zmod_int)
  have c: "py_int (py_mod s 60) = int (n mod 60)"
    by (simp add: seconds_eq fl zmod_int)
  show ?thesis
    unfolding seconds_to_timestamp_def spec_timestamp_def Let_def h m c fmt_02d_nat
      n_def [symmetric]
    by simp
qed

lemmas timestamp_eval =
  spec_timestamp_def zero_pad2_def digit_char_def str_nat.simps



subsection \<open>Plain and timestamped formatting\<close>

lemma trim_left_eq: "trim_left s = dropWhile isspace s"
  by (induction s) simp_all

lemma trim_right_eq: "trim_right s = rev (dropWhile isspace (rev s))"
proof (induction s)
  case Nil
  then show ?case by simp
next
  case (Cons c cs)
  show ?case
  proof (cases "list_all isspace cs")
    case True
    then have "dropWhile isspace (rev cs) = []" by (simp add: list_all_iff)
    with True Cons show ?thesis by (simp add: dropWhile_append list_all_iff)
  next
    case False
    then have "dropWhile isspace (rev cs) \<noteq> []" by (simp add: list_all_iff)
    with False Cons show ?thesis by (auto simp add: dropWhile_append list_all_iff)
  qed
qed

lemma strip_eq_spec_trim: "strip s = spec_trim s"
  by (simp add: strip_def spec_trim_def trim_left_eq trim_right_eq)

lemma collapse_runs_True: "collapse_runs True s = collapse_runs False (dropWhile isspace s)"
  by (induction s) simp_all

lemma re_sub_spaces_eq: "re_sub_spaces s = collapse_runs False s"
  by (induction s rule: re_sub_spaces.induct) (simp_all add: collapse_runs_True)

lemma plain_result_eq:
  "strip (re_sub_spaces (join '' '' (map (\<lambda>entry. strip (entry_text entry)) entries)))
     = spec_plain entries"
  by (simp add: spec_plain_def strip_eq_spec_trim re_sub_spaces_eq)

text \<open>
  C5. For every sequence of entries, the output of Plain mode is the specification's
  pipeline: the trimmed texts joined with one space, every run of whitespace collapsed
  to one space, the result trimmed. It is so when no chunk size is given and when the
  chunk size is 0. In particular the texts \<open>"  hello  "\<close> and \<open>"world\n"\<close> give
  \<open>"hello world"\<close>.
\<close>

theorem format_plain_correct:
  "format_transcript entries False None = Text (spec_plain entries)
   \<and> format_transcript entries False (Some 0) = Text (spec_plain entries)
   \<and> format_transcript
        [\<lparr>entry_text = ''  hello  '', start = a, duration = b\<rparr>,
         \<lparr>entry_text = ''world'' @ [CHR 0x0A], start = c, duration = d\<rparr>] False None
       = Text ''hello world''"
proof -
  have "format_transcript entries False None = Text (spec_plain entries)"
    by (simp add: format_transcript_def plain_result_eq)
  moreover have "format_transcript entries False (Some 0) = Text (spec_plain entries)"
    by (simp add: format_transcript_def plain_result_eq)
  moreover have "format_transcript
        [\<lparr>entry_text = ''  hello  '', start = a, duration = b\<rparr>,
         \<lparr>entry_text = ''world'' @ [CHR 0x0A], start = c, duration = d\<rparr>] False None
       = Text ''hello world''"
    by (simp add: format_transcript_def strip_def isspace_def)
  ultimately show ?thesis by simp
qed

lemma timestamped_loop_eq: "timestamped_loop entries acc = acc @ map spec_line entries"
  by (induction entries arbitrary: acc) (simp_all add: spec_line_def strip_eq_spec_trim)

lemma format_timestamped:
  "format_transcript entries True chunk_size = Text (spec_timestamped entries)"
  by (simp add: format_transcript_def spec_timestamped_def timestamped_loop_eq Let_def
      split: option.split)

lemma last_join:
  "xs \<noteq> [] \<Longrightarrow> last xs \<noteq> [] \<Longrightarrow> join sep xs \<noteq> [] \<and> last (join sep xs) = last (last xs)"
  by (induction sep xs rule: join.induct) auto

lemma trim_right_Nil: "trim_right s = [] \<longleftrightarrow> list_all isspace s"
  by (induction s) auto

lemma trim_right_last: "trim_right s \<noteq> [] \<Longrightarrow> \<not> isspace (last (trim_right s))"
  by (induction s) (auto simp: trim_right_Nil split: if_splits)

lemma spec_line_last: "spec_line e \<noteq> [] \<and> last (spec_line e) \<noteq> CHR 0x0A"
proof (cases "spec_trim (entry_text e) = []")
  case True
  then show ?thesis by (simp add: spec_line_def)
next
  case False
  then have "\<not> isspace (last (spec_trim (entry_text e)))"
    unfolding spec_trim_def by (rule trim_right_last)
  moreover have "isspace (CHR 0x0A)" by (simp add: isspace_def)
  ultimately have "last (spec_trim (entry_text e)) \<noteq> CHR 0x0A" by auto
  with False show ?thesis by (simp add: spec_line_def)
qed

lemma no_trailing_newline:
  assumes "entries \<noteq> []"
  shows "spec_timestamped entries \<noteq> [] \<and> last (spec_timestamped entries) \<noteq> CHR 0x0A"
proof -
  have "map spec_line entries \<noteq> []" using assms by simp
  moreover have "last (map spec_line entries) = spec_line (last entries)"
    using assms by (simp add: last_map)
  ultimately show ?thesis
    unfolding spec_timestamped_def
    using last_join [of "map spec_line entries" "[CHR 0x0A]"] spec_line_last [of "last entries"]
    by simp
qed

text \<open>
  C6. For every sequence of entries, and whatever the chunk size, the output of
  Timestamped mode is one string: the lines \<open>[T] text\<close> of the entries in order, \<open>T\<close> the
  timestamp conversion of the entry's start and \<open>text\<close> its trimmed text, with one line
  feed between two lines. Nothing follows the last line: when there is an entry, the
  output does not end with a line feed.
\<close>

theorem format_timestamped_correct:
  "format_transcript entries True chunk_size = Text (spec_timestamped entries)
   \<and> (entries \<noteq> [] \<longrightarrow>
        spec_timestamped entries \<noteq> [] \<and> last (spec_timestamped entries) \<noteq> CHR 0x0A)"
  by (simp add: format_timestamped no_trailing_newline)

theorem format_timestamped_correct_witness:
  "[\<lparr>entry_text = '' hello '', start = 0, duration = 2\<rparr>,
    \<lparr>entry_text = ''world'' @ [CHR 0x0A], start = 3661, duration = 2\<rparr>] \<noteq> []
   \<and> format_transcript
        [\<lparr>entry_text = '' hello '', start = 0, duration = 2\<rparr>,
         \<lparr>entry_text = ''world'' @ [CHR 0x0A], start = 3661, duration = 2\<rparr>] True (Some 5)
       = Text (''[00:00] hello'' @ [CHR 0x0A] @ ''[01:01:01] world'')
   \<and> last (spec_timestamped
        [\<lparr>entry_text = '' hello '', start = 0, duration = 2\<rparr>,
         \<lparr>entry_text = ''world'' @ [CHR 0x0A], start = 3661, duration = 2\<rparr>]) \<noteq> CHR 0x0A"
proof -
  have t0: "seconds_to_timestamp 0 = ''00:00''"
    using seconds_to_timestamp_floor [of 0] by (simp add: timestamp_eval)
  have t1: "seconds_to_timestamp 3661 = ''01:01:01''"
    using seconds_to_timestamp_floor [of 3661] by (simp add: timestamp_eval)
  show ?thesis
    using format_timestamped_correct
      [of "[\<lparr>entry_text = '' hello '', start = 0, duration = 2\<rparr>,
            \<lparr>entry_text = ''world'' @ [CHR 0x0A], start = 3661, duration = 2\<rparr>]" "Some 5"]
    by (simp add: spec_timestamped_def spec_line_def spec_trim_def isspace_def t0 t1)
qed

lemma isspace_space: "isspace (CHR '' '')"
  by (simp add: isspace_def)

lemma adjacent_spaces_nonspace: "\<not> isspace c \<Longrightarrow> adjacent_spaces (c # r) = adjacent_spaces r"
  by (cases r) simp_all

lemma collapse_runs_adjacent:
  "\<not> adjacent_spaces (collapse_runs False s) \<and> \<not> adjacent_spaces (CHR '' '' # collapse_runs True s)"
  by (induction s) (simp_all add: adjacent_spaces_nonspace)

lemma adjacent_spaces_appendI1: "adjacent_spaces xs \<Longrightarrow> adjacent_spaces (xs @ ys)"
  by (induction xs rule: adjacent_spaces.induct) auto

lemma adjacent_spaces_appendI2: "adjacent_spaces ys \<Longrightarrow> adjacent_spaces (xs @ ys)"
proof (induction xs)
  case Nil
  then show ?case by simp
next
  case (Cons x xs)
  then have "adjacent_spaces (xs @ ys)" by simp
  then show ?case by (cases "xs @ ys") simp_all
qed

lemma trim_left_suffix: "\<exists>ws. s = ws @ trim_left s \<and> list_all isspace ws"
proof (induction s)
  case Nil
  then show ?case by simp
next
  case (Cons c cs)
  show ?case
  proof (cases "isspace c")
    case True
    from Cons obtain ws where "cs = ws @ trim_left cs" and "list_all isspace ws" by blast
    with True have "c # cs = (c # ws) @ trim_left (c # cs) \<and> list_all isspace (c # ws)" by simp
    then show ?thesis by blast
  next
    case False
    then have "c # cs = [] @ trim_left (c # cs) \<and> list_all isspace []" by simp
    then show ?thesis by blast
  qed
qed

lemma trim_right_prefix: "\<exists>ws. s = trim_right s @ ws \<and> list_all isspace ws"
proof (induction s)
  case Nil
  then show ?case by simp
next
  case (Cons c cs)
  show ?case
  proof (cases "list_all isspace (c # cs)")
    case True
    then have "c # cs = trim_right (c # cs) @ (c # cs) \<and> list_all isspace (c # cs)" by simp
    then show ?thesis by blast
  next
    case False
    from Cons obtain ws where ws: "cs = trim_right cs @ ws" and sp: "list_all isspace ws" by blast
    from False have "trim_right (c # cs) = c # trim_right cs" by simp
    then have "trim_right (c # cs) @ ws = c # (trim_right cs @ ws)" by simp
    also have "\<dots> = c # cs" using ws by simp
    finally have "c # cs = trim_right (c # cs) @ ws" by simp
    with sp show ?thesis by blast
  qed
qed

lemma spec_trim_decomp:
  "\<exists>u v. s = u @ spec_trim s @ v \<and> list_all isspace u \<and> list_all isspace v"
proof -
  obtain u where u: "s = u @ trim_left s" "list_all isspace u"
    using trim_left_suffix by blast
  obtain v where v: "trim_left s = trim_right (trim_left s) @ v" "list_all isspace v"
    using trim_right_prefix by blast
  from u v have "s = u @ spec_trim s @ v" by (simp add: spec_trim_def)
  with u v show ?thesis by blast
qed

lemma trim_left_hd: "trim_left s \<noteq> [] \<Longrightarrow> \<not> isspace (hd (trim_left s))"
  by (induction s) (auto split: if_splits)

lemma trim_right_hd: "trim_right s \<noteq> [] \<Longrightarrow> hd (trim_right s) = hd s"
  by (cases s) (auto split: if_splits)

lemma spec_trim_ends:
  "spec_trim s \<noteq> [] \<Longrightarrow> \<not> isspace (hd (spec_trim s)) \<and> \<not> isspace (last (spec_trim s))"
proof -
  assume ne: "spec_trim s \<noteq> []"
  then have "trim_left s \<noteq> []" by (auto simp: spec_trim_def)
  then have "\<not> isspace (hd (trim_left s))" by (rule trim_left_hd)
  with ne show ?thesis by (simp add: spec_trim_def trim_right_hd trim_right_last)
qed

lemma collapse_runs_spaces: "c \<in> set (collapse_runs b s) \<Longrightarrow> isspace c \<Longrightarrow> c = CHR '' ''"
  by (induction s arbitrary: b) (auto split: if_splits)

lemma collapse_runs_content:
  "filter (\<lambda>c. \<not> isspace c) (collapse_runs b s) = filter (\<lambda>c. \<not> isspace c) s"
  by (induction s arbitrary: b) (simp_all add: isspace_space)

lemma filter_all_space: "list_all isspace ws \<Longrightarrow> filter (\<lambda>c. \<not> isspace c) ws = []"
  by (induction ws) simp_all

lemma spec_trim_content: "filter (\<lambda>c. \<not> isspace c) (spec_trim s) = filter (\<lambda>c. \<not> isspace c) s"
proof -
  obtain u v where "s = u @ spec_trim s @ v" "list_all isspace u" "list_all isspace v"
    using spec_trim_decomp by blast
  then have "filter (\<lambda>c. \<not> isspace c) s
      = filter (\<lambda>c. \<not> isspace c) u @ filter (\<lambda>c. \<not> isspace c) (spec_trim s)
        @ filter (\<lambda>c. \<not> isspace c) v"
    by (metis filter_append)
  with \<open>list_all isspace u\<close> \<open>list_all isspace v\<close> show ?thesis
    by (simp add: filter_all_space)
qed

lemma join_space_content:
  "filter (\<lambda>c. \<not> isspace c) (join '' '' xs) = concat (map (filter (\<lambda>c. \<not> isspace c)) xs)"
  by (induction "'' ''" xs rule: join.induct) (simp_all add: isspace_space)

text \<open>
  What the pipeline of Plain mode achieves: the only whitespace left in the output is
  the space, no two spaces are adjacent, the output neither starts nor ends with
  whitespace, and the characters that are not whitespace are those of the texts, in
  order.
\<close>

lemma spec_plain_shape:
  "(\<forall>c\<in>set (spec_plain entries). isspace c \<longrightarrow> c = CHR '' '')
   \<and> \<not> adjacent_spaces (spec_plain entries)
   \<and> (spec_plain entries \<noteq> [] \<longrightarrow>
        \<not> isspace (hd (spec_plain entries)) \<and> \<not> isspace (last (spec_plain entries)))
   \<and> filter (\<lambda>c. \<not> isspace c) (spec_plain entries)
       = filter (\<lambda>c. \<not> isspace c) (concat (map entry_text entries))"
proof -
  let ?j = "join '' '' (map (\<lambda>e. spec_trim (entry_text e)) entries)"
  let ?c = "collapse_runs False ?j"
  obtain u v where d: "?c = u @ spec_trim ?c @ v"
    using spec_trim_decomp by blast
  have 1: "\<forall>c\<in>set (spec_plain entries). isspace c \<longrightarrow> c = CHR '' ''"
  proof (intro ballI impI)
    fix c assume "c \<in> set (spec_plain entries)" and sp: "isspace c"
    then have "c \<in> set (spec_trim ?c)" by (simp add: spec_plain_def)
    then have "c \<in> set ?c" by (subst d) simp
    from collapse_runs_spaces [OF this sp] show "c = CHR '' ''" .
  qed
  have 2: "\<not> adjacent_spaces (spec_plain entries)"
  proof
    assume "adjacent_spaces (spec_plain entries)"
    then have "adjacent_spaces (spec_trim ?c)" by (simp add: spec_plain_def)
    then have "adjacent_spaces (u @ spec_trim ?c @ v)"
      by (intro adjacent_spaces_appendI2 adjacent_spaces_appendI1)
    with d have "adjacent_spaces ?c" by simp
    with collapse_runs_adjacent show False by blast
  qed
  have 3: "spec_plain entries \<noteq> [] \<longrightarrow>
        \<not> isspace (hd (spec_plain entries)) \<and> \<not> isspace (last (spec_plain entries))"
    unfolding spec_plain_def using spec_trim_ends by blast
  have 4: "filter (\<lambda>c. \<not> isspace c) (spec_plain entries)
       = filter (\<lambda>c. \<not> isspace c) (concat (map entry_text entries))"
    by (simp add: spec_plain_def spec_trim_content collapse_runs_content join_space_content
        filter_concat comp_def)
  from 1 2 3 4 show ?thesis by blast
qed

subsection \<open>Chunking\<close>

lemma py_slice_chunk:
  "k \<le> length s \<Longrightarrow> py_slice s (int k) (int k + int n) = take n (drop k s)"
  by (simp add: py_slice_def Let_def min_def)

lemma chunk_slices:
  assumes "0 < n"
  shows "map (\<lambda>i. py_slice s i (i + int n)) (py_range (int k) (int (length s)) (int n))
         = chunks_of n (drop k s)"
proof (induction "length s - k" arbitrary: k rule: less_induct)
  case less
  show ?case
  proof (cases "k < length s")
    case True
    have step: "length s - (k + n) < length s - k" using True assms by simp
    have r: "py_range (int k) (int (length s)) (int n)
               = int k # py_range (int (k + n)) (int (length s)) (int n)"
      using True assms by (subst py_range.simps) simp
    have c: "chunks_of n (drop k s) = take n (drop k s) # chunks_of n (drop (k + n) s)"
      using True assms by (subst chunks_of.simps) (simp add: add.commute)
    show ?thesis
      using True less [OF step] by (simp add: r c py_slice_chunk)
  next
    case False
    then have "py_range (int k) (int (length s)) (int n) = []"
      by (subst py_range.simps) simp
    moreover have "chunks_of n (drop k s) = []"
      using False by (subst chunks_of.simps) simp
    ultimately show ?thesis by simp
  qed
qed

lemma chunks_of_Nil: "chunks_of n [] = []"
  by (subst chunks_of.simps) simp

lemma chunks_of_step:
  "0 < n \<Longrightarrow> s \<noteq> [] \<Longrightarrow> chunks_of n s = take n s # chunks_of n (drop n s)"
  by (subst chunks_of.simps) simp

text \<open>
  With a positive chunk size, Plain mode returns the consecutive slices of the plain
  output, and Timestamped mode (\<open>format_timestamped\<close>) never chunks.
\<close>

lemma chunker_positive_size:
  "0 < n \<Longrightarrow>
   format_transcript entries False (Some (int n)) = Chunks (chunks_of n (spec_plain entries))"
  using chunk_slices [of n _ 0] by (simp add: format_transcript_def Let_def plain_result_eq)

lemma chunker_example:
  "format_transcript [\<lparr>entry_text = ''abcdefgh'', start = a, duration = b\<rparr>] False (Some 5)
     = Chunks [''abcde'', ''fgh'']"
  by (simp add: format_transcript_def py_range.simps strip_def isspace_def py_slice_def)

text \<open>The slices are consecutive and do not overlap: put together they are the string.\<close>

lemma concat_chunks_of: "0 < n \<Longrightarrow> concat (chunks_of n s) = s"
proof (induction n s rule: chunks_of.induct)
  case (1 n s)
  show ?case
  proof (cases "s = []")
    case True
    then show ?thesis by (simp add: chunks_of_Nil)
  next
    case False
    with 1 show ?thesis by (simp add: chunks_of_step)
  qed
qed

text \<open>No slice is empty or longer than the chunk size.\<close>

lemma chunks_of_lengths:
  "0 < n \<Longrightarrow> c \<in> set (chunks_of n s) \<Longrightarrow> 0 < length c \<and> length c \<le> n"
proof (induction n s rule: chunks_of.induct)
  case (1 n s)
  show ?case
  proof (cases "s = []")
    case True
    with "1.prems" show ?thesis by (simp add: chunks_of_Nil)
  next
    case False
    with "1.prems" have "c = take n s \<or> c \<in> set (chunks_of n (drop n s))"
      by (simp add: chunks_of_step)
    then show ?thesis
    proof
      assume "c = take n s"
      with False "1.prems"(1) show ?thesis by simp
    next
      assume "c \<in> set (chunks_of n (drop n s))"
      with False "1.prems"(1) "1.IH" show ?thesis by simp
    qed
  qed
qed

text \<open>Every slice but the last has exactly the chunk size.\<close>

lemma chunks_of_full:
  "0 < n \<Longrightarrow> c \<in> set (butlast (chunks_of n s)) \<Longrightarrow> length c = n"
proof (induction n s rule: chunks_of.induct)
  case (1 n s)
  show ?case
  proof (cases "s = []")
    case True
    with "1.prems" show ?thesis by (simp add: chunks_of_Nil)
  next
    case False
    note ne = this
    show ?thesis
    proof (cases "drop n s = []")
      case True
      with ne "1.prems" show ?thesis by (simp add: chunks_of_step chunks_of_Nil)
    next
      case False
      then have "chunks_of n (drop n s) \<noteq> []"
        using "1.prems"(1) by (simp add: chunks_of_step)
      with ne "1.prems" have "c = take n s \<or> c \<in> set (butlast (chunks_of n (drop n s)))"
        by (simp add: chunks_of_step)
      then show ?thesis
      proof
        assume "c = take n s"
        with False show ?thesis by simp
      next
        assume "c \<in> set (butlast (chunks_of n (drop n s)))"
        with ne "1.prems"(1) "1.IH" show ?thesis by simp
      qed
    qed
  qed
qed

text \<open>
  C7. The chunker is meant to apply only in Plain mode and only for a positive chunk
  size. The guard \<open>if chunk_size and not include_timestamps\<close> lets every chunk size but
  0 through, so a negative one reaches the chunker: the range of slice starts is then
  empty, and the output is the empty list of chunks, whatever the entries are.
\<close>

theorem chunker_negative_size:
  "n < 0 \<Longrightarrow> format_transcript entries False (Some n) = Chunks []"
  by (simp add: format_transcript_def Let_def py_range.simps)

theorem chunker_negative_size_witness:
  "(- 1 :: int) < 0
   \<and> format_transcript [\<lparr>entry_text = ''abcdefgh'', start = 0, duration = 1\<rparr>] False (Some (- 1))
       = Chunks []"
  using chunker_negative_size [of "- 1" "[\<lparr>entry_text = ''abcdefgh'', start = 0, duration = 1\<rparr>]"]
  by simp

subsection \<open>The selection cascade\<close>

lemma lookup_codes_single:
  "lookup_codes m catalog [code] =
     (case List.find (m code) catalog of Some t \<Rightarrow> Inr t | None \<Rightarrow> Inl not_found)"
  by (simp split: option.split)

lemma lookup_codes_in_catalog: "lookup_codes m catalog codes = Inr t \<Longrightarrow> t \<in> set catalog"
  by (induction codes) (auto split: option.splits simp: find_Some_iff)

lemma first_match_Nil: "first_match g catalog [] = None"
  by (simp add: first_match_def)

lemma first_match_Cons:
  "first_match g catalog (p # ps) =
     (case List.find (\<lambda>t. is_generated t = g \<and> language_code t = p) catalog of
        Some t \<Rightarrow> Some (t, p)
      | None \<Rightarrow> first_match g catalog ps)"
proof -
  let ?P = "\<lambda>p. \<exists>t\<in>set catalog. is_generated t = g \<and> language_code t = p"
  show ?thesis
  proof (cases "List.find (\<lambda>t. is_generated t = g \<and> language_code t = p) catalog")
    case None
    then have "\<not> ?P p" unfolding find_None_iff by blast
    then have "List.find ?P (p # ps) = List.find ?P ps" by (simp only: find.simps if_False)
    with None show ?thesis unfolding first_match_def by simp
  next
    case (Some t)
    then have "?P p" unfolding find_Some_iff by (metis nth_mem)
    then have "List.find ?P (p # ps) = Some p" by (simp only: find.simps if_True)
    with Some show ?thesis unfolding first_match_def by simp
  qed
qed

lemma manual_loop_provider:
  assumes "\<forall>t\<in>set catalog. fetch t = Inr (entries_of t)"
  shows "manual_loop (provider rule catalog) preferences =
           map_option (\<lambda>(t, p). (entries_of t, p, ''manual'')) (first_match False catalog preferences)"
proof (induction preferences)
  case Nil
  then show ?case by (simp add: first_match_Nil)
next
  case (Cons p ps)
  show ?case
  proof (cases "List.find (\<lambda>t. is_generated t = False \<and> language_code t = p) catalog")
    case None
    with Cons show ?thesis by (simp add: first_match_Cons provider_def)
  next
    case (Some t)
    then have "t \<in> set catalog" by (auto simp: find_Some_iff)
    with assms have "fetch t = Inr (entries_of t)" by simp
    with Some show ?thesis by (simp add: first_match_Cons provider_def)
  qed
qed

lemma generated_loop_provider:
  assumes "\<forall>t\<in>set catalog. fetch t = Inr (entries_of t)"
  shows "generated_loop (provider rule catalog) preferences =
           map_option (\<lambda>(t, p). (entries_of t, p, ''auto-generated''))
             (first_match True catalog preferences)"
proof (induction preferences)
  case Nil
  then show ?case by (simp add: first_match_Nil)
next
  case (Cons p ps)
  show ?case
  proof (cases "List.find (\<lambda>t. is_generated t = True \<and> language_code t = p) catalog")
    case None
    with Cons show ?thesis by (simp add: first_match_Cons provider_def)
  next
    case (Some t)
    then have "t \<in> set catalog" by (auto simp: find_Some_iff)
    with assms have "fetch t = Inr (entries_of t)" by simp
    with Some show ?thesis by (simp add: first_match_Cons provider_def)
  qed
qed

lemma any_available_provider:
  assumes "\<forall>t\<in>set catalog. fetch t = Inr (entries_of t)"
  shows "any_available (provider rule catalog) =
           (case List.find (rule ''en'') catalog of
              Some t \<Rightarrow> Inr (entries_of t, ''en'', ''fallback'')
            | None \<Rightarrow>
                (case catalog of
                   t # rest \<Rightarrow> Inr (entries_of t, language_code t, ''available'')
                 | [] \<Rightarrow> Inl (Exception ''No transcripts available'')))"
proof (cases "List.find (rule ''en'') catalog")
  case None
  with assms show ?thesis
    by (cases catalog) (simp_all add: any_available_def first_available_def provider_def)
next
  case (Some t)
  then have "t \<in> set catalog" by (auto simp: find_Some_iff)
  with assms have "fetch t = Inr (entries_of t)" by simp
  with Some show ?thesis by (simp add: any_available_def provider_def)
qed

lemma cascade_provider:
  assumes "\<forall>t\<in>set catalog. fetch t = Inr (entries_of t)"
  shows "cascade (provider rule catalog) preferences =
           (case selection_cascade rule catalog preferences of
              None \<Rightarrow> Inl (Exception ''No transcripts available'')
            | Some (t, lang, tag) \<Rightarrow> Inr (entries_of t, lang, tag))"
  by (simp add: cascade_def selection_cascade_def manual_loop_provider [OF assms]
      generated_loop_provider [OF assms] any_available_provider [OF assms]
      split: option.split list.split)


lemmas example_tracks =
  manual_es_def generated_en_def generated_fr_def manual_en_us_def manual_ko_def one_entry_def
  entries_of_def exact_rule_def regional_rule_def starts_with_def

lemma get_transcript_provider:
  assumes "list_transcripts video_id = Inr (provider rule catalog)"
      and "\<forall>t\<in>set catalog. fetch t = Inr (entries_of t)"
  shows "get_transcript list_transcripts video_id preferences =
           (case selection_cascade rule catalog preferences of
              None \<Rightarrow> Inl (Exception ''Error fetching transcript: No transcripts available'')
            | Some (t, lang, tag) \<Rightarrow> Inr (entries_of t, lang, tag))"
  using assms(1) by (simp add: get_transcript_def cascade_provider [OF assms(2)] split: option.split)

text \<open>
  C1. For a catalog served by the provider, each of whose tracks delivers its entries,
  and for every preference list, \<open>get_transcript\<close> returns what the specification's
  cascade selects: the first manual match of the preference list, scanned in order;
  only when the whole list has no manual match, the first generated match; only then
  the provider's match for \<open>en\<close>; only then the first track of the catalog; the entries
  of the chosen track come with the reported language and the tag. In particular a
  catalog with a generated \<open>en\<close> track and a manual \<open>es\<close> track gives, for the preferences
  \<open>en\<close>, \<open>es\<close>, the manual \<open>es\<close> track with the tag \<open>manual\<close>.
\<close>

theorem selection_cascade_priority:
  "(list_transcripts video_id = Inr (provider rule catalog)
      \<and> (\<forall>t\<in>set catalog. fetch t = Inr (entries_of t))
    \<longrightarrow> get_transcript list_transcripts video_id preferences =
          (case selection_cascade rule catalog preferences of
             None \<Rightarrow> Inl (Exception ''Error fetching transcript: No transcripts available'')
           | Some (t, lang, tag) \<Rightarrow> Inr (entries_of t, lang, tag)))
   \<and> get_transcript (\<lambda>v. Inr (provider rule [generated_en, manual_es])) video_id [''en'', ''es'']
       = Inr (entries_of manual_es, ''es'', ''manual'')"
proof -
  have "get_transcript (\<lambda>v. Inr (provider rule [generated_en, manual_es])) video_id [''en'', ''es'']
       = Inr (entries_of manual_es, ''es'', ''manual'')"
    by (subst get_transcript_provider [of _ _ rule "[generated_en, manual_es]"])
       (simp_all add: selection_cascade_def first_match_def example_tracks)
  then show ?thesis
    using get_transcript_provider [of list_transcripts video_id rule catalog preferences]
    by blast
qed

theorem selection_cascade_priority_witness:
  "(\<lambda>v. Inr (provider exact_rule [generated_fr])) ''abc12345678'' = Inr (provider exact_rule [generated_fr])
   \<and> fetch generated_fr = Inr (entries_of generated_fr)
   \<and> get_transcript (\<lambda>v. Inr (provider exact_rule [generated_fr])) ''abc12345678'' [''en'', ''fr'']
       = Inr (one_entry ''bonjour'', ''fr'', ''auto-generated'')"
  using selection_cascade_priority
    [of "\<lambda>v. Inr (provider exact_rule [generated_fr])" "''abc12345678''" exact_rule
        "[generated_fr]" "[''en'', ''fr'']"]
  by (simp add: selection_cascade_def first_match_def example_tracks)

lemma manual_loop_Some:
  "manual_loop tls langs = Some (d, lang, src) \<Longrightarrow>
     src = ''manual'' \<and> lang \<in> set langs
     \<and> (\<exists>t. find_manually_created_transcript tls [lang] = Inr t \<and> fetch t = Inr d)"
  by (induction langs) (auto split: sum.splits)

lemma generated_loop_Some:
  "generated_loop tls langs = Some (d, lang, src) \<Longrightarrow>
     src = ''auto-generated'' \<and> lang \<in> set langs
     \<and> (\<exists>t. find_generated_transcript tls [lang] = Inr t \<and> fetch t = Inr d)"
  by (induction langs) (auto split: sum.splits)

lemma first_available_Inr:
  "first_available tls = Inr (d, lang, src) \<Longrightarrow>
     src = ''available'' \<and> (\<exists>t ts. transcripts tls = t # ts \<and> fetch t = Inr d \<and> lang = language_code t)"
  by (auto simp: first_available_def split: list.splits sum.splits)

lemma any_available_Inr:
  "any_available tls = Inr (d, lang, src) \<Longrightarrow>
     (src = ''fallback'' \<and> lang = ''en'' \<and> (\<exists>t. find_transcript tls [''en''] = Inr t \<and> fetch t = Inr d))
     \<or> (src = ''available'' \<and> (\<exists>t ts. transcripts tls = t # ts \<and> fetch t = Inr d \<and> lang = language_code t))"
  by (auto simp: any_available_def split: sum.splits dest: first_available_Inr)

lemma cascade_Inr:
  assumes "cascade tls langs = Inr (d, lang, src)"
  shows "(src = ''manual'' \<and> lang \<in> set langs
           \<and> (\<exists>t. find_manually_created_transcript tls [lang] = Inr t \<and> fetch t = Inr d))
       \<or> (src = ''auto-generated'' \<and> lang \<in> set langs
           \<and> (\<exists>t. find_generated_transcript tls [lang] = Inr t \<and> fetch t = Inr d))
       \<or> (src = ''fallback'' \<and> lang = ''en''
           \<and> (\<exists>t. find_transcript tls [''en''] = Inr t \<and> fetch t = Inr d))
       \<or> (src = ''available''
           \<and> (\<exists>t ts. transcripts tls = t # ts \<and> fetch t = Inr d \<and> lang = language_code t))"
proof (cases "manual_loop tls langs")
  case (Some r)
  with assms have "manual_loop tls langs = Some (d, lang, src)" by (simp add: cascade_def)
  from manual_loop_Some [OF this] show ?thesis by blast
next
  case None
  note m = this
  show ?thesis
  proof (cases "generated_loop tls langs")
    case (Some r)
    with assms m have "generated_loop tls langs = Some (d, lang, src)" by (simp add: cascade_def)
    from generated_loop_Some [OF this] show ?thesis by blast
  next
    case None
    with assms m have "any_available tls = Inr (d, lang, src)" by (simp add: cascade_def)
    from any_available_Inr [OF this] show ?thesis by blast
  qed
qed

lemma cascade_Inl: "cascade tls langs = Inl err \<Longrightarrow> first_available tls = Inl err"
  by (auto simp: cascade_def any_available_def split: option.splits sum.splits)

lemma first_available_Inl:
  "first_available tls = Inl err \<Longrightarrow>
     (transcripts tls = [] \<and> err = Exception ''No transcripts available'')
     \<or> (\<exists>t ts. transcripts tls = t # ts \<and> fetch t = Inl err)"
  by (auto simp: first_available_def split: list.splits sum.splits)

lemma manual_loop_all_fail:
  "\<forall>l\<in>set langs. \<exists>e. find_manually_created_transcript tls [l] = Inl e \<Longrightarrow> manual_loop tls langs = None"
  by (induction langs) auto

lemma generated_loop_all_fail:
  "\<forall>l\<in>set langs. \<exists>e. find_generated_transcript tls [l] = Inl e \<Longrightarrow> generated_loop tls langs = None"
  by (induction langs) auto


lemma first_match_empty: "first_match g [] preferences = None"
  by (induction preferences) (simp_all add: first_match_Nil first_match_Cons)

lemma selection_cascade_empty: "selection_cascade rule [] preferences = None"
  by (simp add: selection_cascade_def first_match_empty)

lemma provider_lookups_in_catalog:
  "find_manually_created_transcript (provider rule catalog) codes = Inr t \<Longrightarrow> t \<in> set catalog"
  "find_generated_transcript (provider rule catalog) codes = Inr t \<Longrightarrow> t \<in> set catalog"
  "find_transcript (provider rule catalog) codes = Inr t \<Longrightarrow> t \<in> set catalog"
  by (auto simp: provider_def dest: lookup_codes_in_catalog)

lemma get_transcript_Inr:
  "list_transcripts video_id = Inr tls \<Longrightarrow>
   get_transcript list_transcripts video_id langs = Inr r \<longleftrightarrow> cascade tls langs = Inr r"
  by (simp add: get_transcript_def split: sum.split)

lemma cascade_returns:
  assumes "transcripts tls = t0 # ts" and "fetch t0 = Inr d0"
  shows "\<exists>r. cascade tls langs = Inr r"
proof (cases "cascade tls langs")
  case (Inl err)
  from cascade_Inl [OF this] assms show ?thesis by (simp add: first_available_def)
next
  case (Inr r)
  then show ?thesis by blast
qed

text \<open>
  C2. For a catalog served by the provider and every preference list: when the catalog
  is empty, \<open>get_transcript\<close> fails with the exception whose message is
  \<open>Error fetching transcript: No transcripts available\<close>; when the catalog is not empty
  and its first track can be fetched, \<open>get_transcript\<close> returns the entries of a track
  of the catalog.
\<close>

theorem cascade_exhaustion:
  "list_transcripts video_id = Inr (provider rule catalog) \<Longrightarrow>
     (catalog = [] \<longrightarrow>
        get_transcript list_transcripts video_id preferences
          = Inl (Exception ''Error fetching transcript: No transcripts available''))
     \<and> (catalog \<noteq> [] \<and> (\<exists>d. fetch (hd catalog) = Inr d) \<longrightarrow>
          (\<exists>t\<in>set catalog. \<exists>d lang tag.
             fetch t = Inr d
             \<and> get_transcript list_transcripts video_id preferences = Inr (d, lang, tag)))"
proof (intro conjI impI)
  assume api: "list_transcripts video_id = Inr (provider rule catalog)" and "catalog = []"
  then show "get_transcript list_transcripts video_id preferences
          = Inl (Exception ''Error fetching transcript: No transcripts available'')"
    using get_transcript_provider [of list_transcripts video_id rule catalog preferences]
    by (simp add: selection_cascade_empty)
next
  assume api: "list_transcripts video_id = Inr (provider rule catalog)"
    and ne: "catalog \<noteq> [] \<and> (\<exists>d. fetch (hd catalog) = Inr d)"
  let ?tls = "provider rule catalog"
  from ne obtain t0 ts d0 where cat: "catalog = t0 # ts" and f0: "fetch t0 = Inr d0"
    by (cases catalog) auto
  have "transcripts ?tls = t0 # ts" by (simp add: provider_def cat)
  from cascade_returns [OF this f0] obtain d lang tag
    where r: "cascade ?tls preferences = Inr (d, lang, tag)"
    by (metis prod_cases3)
  have "transcripts ?tls = t # ts' \<Longrightarrow> t \<in> set catalog" for t ts'
    by (simp add: provider_def cat)
  with cascade_Inr [OF r] obtain t where "t \<in> set catalog" and "fetch t = Inr d"
    using provider_lookups_in_catalog [of rule catalog] by blast
  moreover from r api have "get_transcript list_transcripts video_id preferences = Inr (d, lang, tag)"
    by (simp add: get_transcript_Inr)
  ultimately show "\<exists>t\<in>set catalog. \<exists>d lang tag.
             fetch t = Inr d
             \<and> get_transcript list_transcripts video_id preferences = Inr (d, lang, tag)"
    by blast
qed

theorem cascade_exhaustion_witness:
  "get_transcript (\<lambda>v. Inr (provider exact_rule [])) ''abc12345678'' [''en'']
     = Inl (Exception ''Error fetching transcript: No transcripts available'')
   \<and> [manual_ko] \<noteq> [] \<and> fetch (hd [manual_ko]) = Inr (one_entry ''annyeong'')
   \<and> (\<exists>d lang tag. fetch manual_ko = Inr d
         \<and> get_transcript (\<lambda>v. Inr (provider exact_rule [manual_ko])) ''abc12345678'' [''de'']
             = Inr (d, lang, tag))"
proof -
  have "get_transcript (\<lambda>v. Inr (provider exact_rule [])) ''abc12345678'' [''en'']
     = Inl (Exception ''Error fetching transcript: No transcripts available'')"
    using cascade_exhaustion
      [of "\<lambda>v. Inr (provider exact_rule [])" "''abc12345678''" exact_rule "[]" "[''en'']"]
    by simp
  moreover have "\<exists>d lang tag. fetch manual_ko = Inr d
         \<and> get_transcript (\<lambda>v. Inr (provider exact_rule [manual_ko])) ''abc12345678'' [''de'']
             = Inr (d, lang, tag)"
    using cascade_exhaustion
      [of "\<lambda>v. Inr (provider exact_rule [manual_ko])" "''abc12345678''" exact_rule "[manual_ko]"
          "[''de'']"]
    by (simp add: manual_ko_def)
  moreover have "fetch (hd [manual_ko]) = Inr (one_entry ''annyeong'')"
    by (simp add: manual_ko_def)
  ultimately show ?thesis by simp
qed

text \<open>
  C3. For every transcript list, whatever its lookups raise: a lookup that raises for
  one preference entry leaves the scan of the manual and of the generated step to go
  on with the next entry, and a raising lookup of \<open>en\<close> hands over to the last step; when
  every lookup of steps 1 to 3 raises, the cascade is the last step; and an exception
  that leaves the cascade is never one of those: it is the exception for an empty
  catalog or the one raised by fetching the first track in the last step.
\<close>

theorem attempt_failures_swallowed:
  "(find_manually_created_transcript tls [lang] = Inl e \<longrightarrow>
      manual_loop tls (lang # langs) = manual_loop tls langs)
   \<and> (find_generated_transcript tls [lang] = Inl e \<longrightarrow>
        generated_loop tls (lang # langs) = generated_loop tls langs)
   \<and> (find_transcript tls [''en''] = Inl e \<longrightarrow> any_available tls = first_available tls)
   \<and> ((\<forall>l\<in>set langs. \<exists>e. find_manually_created_transcript tls [l] = Inl e)
        \<and> (\<forall>l\<in>set langs. \<exists>e. find_generated_transcript tls [l] = Inl e)
        \<and> (\<exists>e. find_transcript tls [''en''] = Inl e)
      \<longrightarrow> cascade tls langs = first_available tls)
   \<and> (cascade tls langs = Inl err \<longrightarrow>
        (transcripts tls = [] \<and> err = Exception ''No transcripts available'')
        \<or> (\<exists>t ts. transcripts tls = t # ts \<and> fetch t = Inl err))"
proof -
  have "(\<forall>l\<in>set langs. \<exists>e. find_manually_created_transcript tls [l] = Inl e)
        \<and> (\<forall>l\<in>set langs. \<exists>e. find_generated_transcript tls [l] = Inl e)
        \<and> (\<exists>e. find_transcript tls [''en''] = Inl e)
      \<longrightarrow> cascade tls langs = first_available tls"
    by (auto simp: cascade_def any_available_def manual_loop_all_fail generated_loop_all_fail)
  moreover have "cascade tls langs = Inl err \<longrightarrow>
        (transcripts tls = [] \<and> err = Exception ''No transcripts available'')
        \<or> (\<exists>t ts. transcripts tls = t # ts \<and> fetch t = Inl err)"
    using cascade_Inl [of tls langs err] first_available_Inl [of tls err] by blast
  ultimately show ?thesis
    by (simp add: any_available_def)
qed

theorem attempt_failures_swallowed_witness:
  "find_manually_created_transcript (provider exact_rule [manual_ko]) [''de''] = Inl not_found
   \<and> find_generated_transcript (provider exact_rule [manual_ko]) [''de''] = Inl not_found
   \<and> find_transcript (provider exact_rule [manual_ko]) [''en''] = Inl not_found
   \<and> cascade (provider exact_rule [manual_ko]) [''de'', ''ko'']
       = Inr (one_entry ''annyeong'', ''ko'', ''manual'')
   \<and> cascade (provider exact_rule [manual_ko]) [''de'']
       = Inr (one_entry ''annyeong'', ''ko'', ''available'')
   \<and> cascade (provider exact_rule []) [''de''] = Inl (Exception ''No transcripts available'')"
proof -
  let ?tls = "provider exact_rule [manual_ko]"
  have m: "find_manually_created_transcript ?tls [''de''] = Inl not_found"
    and g: "find_generated_transcript ?tls [''de''] = Inl not_found"
    and f: "find_transcript ?tls [''en''] = Inl not_found"
    by (simp_all add: provider_def example_tracks)
  have "manual_loop ?tls [''de'', ''ko''] = manual_loop ?tls [''ko'']"
    using attempt_failures_swallowed [of ?tls "''de''" not_found "[''ko'']"] m by blast
  then have 1: "cascade ?tls [''de'', ''ko''] = Inr (one_entry ''annyeong'', ''ko'', ''manual'')"
    by (simp add: cascade_def provider_def example_tracks)
  have "cascade ?tls [''de''] = first_available ?tls"
    using attempt_failures_swallowed [of ?tls "''de''" not_found "[''de'']"] m g f by simp
  then have 2: "cascade ?tls [''de''] = Inr (one_entry ''annyeong'', ''ko'', ''available'')"
    by (simp add: first_available_def provider_def example_tracks)
  have 3: "cascade (provider exact_rule []) [''de''] = Inl (Exception ''No transcripts available'')"
    by (simp add: cascade_def any_available_def first_available_def provider_def)
  from m g f 1 2 3 show ?thesis by simp
qed

text \<open>
  C10. The language returned with the selection is, with the tag \<open>manual\<close> and
  \<open>auto-generated\<close>, the preference entry whose lookup succeeded; with the tag
  \<open>fallback\<close> the literal \<open>en\<close>; and with the tag \<open>available\<close> the language code of the
  chosen track. It need not be the code of the chosen track: a provider that matches
  regional variants returns the track \<open>en-US\<close> for \<open>en\<close>, and the reported language is
  \<open>en\<close>.
\<close>

theorem reported_language:
  "(list_transcripts video_id = Inr tls
      \<and> get_transcript list_transcripts video_id langs = Inr (d, lang, src)
    \<longrightarrow> (src = ''manual'' \<and> lang \<in> set langs
           \<and> (\<exists>t. find_manually_created_transcript tls [lang] = Inr t \<and> fetch t = Inr d))
        \<or> (src = ''auto-generated'' \<and> lang \<in> set langs
           \<and> (\<exists>t. find_generated_transcript tls [lang] = Inr t \<and> fetch t = Inr d))
        \<or> (src = ''fallback'' \<and> lang = ''en''
           \<and> (\<exists>t. find_transcript tls [''en''] = Inr t \<and> fetch t = Inr d))
        \<or> (src = ''available''
           \<and> (\<exists>t ts. transcripts tls = t # ts \<and> fetch t = Inr d \<and> lang = language_code t)))
   \<and> get_transcript (\<lambda>v. Inr (provider regional_rule [manual_en_us])) video_id [''de'']
       = Inr (entries_of manual_en_us, ''en'', ''fallback'')
   \<and> language_code manual_en_us = ''en-US''"
proof (intro conjI impI)
  assume "list_transcripts video_id = Inr tls
      \<and> get_transcript list_transcripts video_id langs = Inr (d, lang, src)"
  then have "cascade tls langs = Inr (d, lang, src)"
    using get_transcript_Inr [of list_transcripts video_id tls langs "(d, lang, src)"] by simp
  then show "(src = ''manual'' \<and> lang \<in> set langs
           \<and> (\<exists>t. find_manually_created_transcript tls [lang] = Inr t \<and> fetch t = Inr d))
        \<or> (src = ''auto-generated'' \<and> lang \<in> set langs
           \<and> (\<exists>t. find_generated_transcript tls [lang] = Inr t \<and> fetch t = Inr d))
        \<or> (src = ''fallback'' \<and> lang = ''en''
           \<and> (\<exists>t. find_transcript tls [''en''] = Inr t \<and> fetch t = Inr d))
        \<or> (src = ''available''
           \<and> (\<exists>t ts. transcripts tls = t # ts \<and> fetch t = Inr d \<and> lang = language_code t))"
    by (rule cascade_Inr)
next
  show "get_transcript (\<lambda>v. Inr (provider regional_rule [manual_en_us])) video_id [''de'']
       = Inr (entries_of manual_en_us, ''en'', ''fallback'')"
    by (simp add: get_transcript_def cascade_def any_available_def provider_def example_tracks)
next
  show "language_code manual_en_us = ''en-US''"
    by (simp add: manual_en_us_def)
qed

theorem reported_language_witness:
  "get_transcript (\<lambda>v. Inr (provider exact_rule [manual_ko])) ''abc12345678'' [''de'']
     = Inr (one_entry ''annyeong'', ''ko'', ''available'')
   \<and> (\<exists>t ts. transcripts (provider exact_rule [manual_ko]) = t # ts
         \<and> fetch t = Inr (one_entry ''annyeong'') \<and> ''ko'' = language_code t)"
proof -
  let ?api = "\<lambda>v::string. (Inr (provider exact_rule [manual_ko]) :: exn + transcript_list)"
  have r: "get_transcript ?api ''abc12345678'' [''de'']
     = Inr (one_entry ''annyeong'', ''ko'', ''available'')"
    by (simp add: get_transcript_def cascade_def any_available_def first_available_def
        provider_def example_tracks)
  with reported_language
    [of ?api "''abc12345678''" "provider exact_rule [manual_ko]" "[''de'']"
        "one_entry ''annyeong''" "''ko''" "''available''"]
  show ?thesis by simp
qed

subsection \<open>Names of the saved files\<close>

lemma splitext_concat: "fst (splitext p) @ snd (splitext p) = p"
  by (simp add: splitext_def Let_def)

lemma chunk_filename_nonempty: "chunk_filename output video_id n i \<noteq> []"
  by (simp add: chunk_filename_def Let_def split: option.split prod.split)

lemma save_to_file_named:
  "name \<noteq> [] \<Longrightarrow> open_error w name = None \<Longrightarrow>
   save_to_file w text (Some name) video_id = (Inr name, w\<lparr>files := (files w)(name \<mapsto> text)\<rparr>)"
  by (simp add: save_to_file_def Let_def)

lemma save_to_file_default:
  "open_error w (''youtube_transcript_'' @ str_opt video_id @ ''_'' @ now w @ ''.txt'') = None \<Longrightarrow>
   fst (save_to_file w text None video_id)
     = Inr (''youtube_transcript_'' @ str_opt video_id @ ''_'' @ now w @ ''.txt'')"
  by (simp add: save_to_file_def Let_def)

lemma save_chunks_names:
  assumes "\<forall>path. open_error w path = None"
  shows "\<exists>w'. save_chunks w output video_id n i cs
               = (Inr (map (\<lambda>k. chunk_filename output video_id n (i + int k)) [0..<length cs]), w')"
  using assms
proof (induction cs arbitrary: w i)
  case Nil
  then show ?case by simp
next
  case (Cons c cs)
  let ?name = "chunk_filename output video_id n i"
  let ?w = "w\<lparr>files := (files w)(?name \<mapsto> c)\<rparr>"
  have s: "save_to_file w c (Some ?name) (Some video_id) = (Inr ?name, ?w)"
    using Cons.prems by (simp add: save_to_file_named chunk_filename_nonempty)
  have "\<forall>path. open_error ?w path = None" using Cons.prems by simp
  from Cons.IH [OF this, of "i + 1"] obtain w' where
    r: "save_chunks ?w output video_id n (i + 1) cs
          = (Inr (map (\<lambda>k. chunk_filename output video_id n (i + 1 + int k)) [0..<length cs]), w')"
    by blast
  have "map (\<lambda>k. chunk_filename output video_id n (i + int k)) [0..<length (c # cs)]
          = ?name # map (\<lambda>k. chunk_filename output video_id n (i + 1 + int k)) [0..<length cs]"
    by (simp add: upt_rec [of 0 "Suc (length cs)"] map_Suc_upt [symmetric] add.assoc del: upt_Suc)
  with s r show ?case by simp
qed

text \<open>
  C8, as amended. With an output path and more than one chunk, the file of chunk \<open>i\<close> is
  the path with \<open>_chunk_i\<close> put before its extension. With a single chunk the name has
  no such suffix: it is the output path when there is one, and
  \<open>transcript_chunk_i_{video_id}.txt\<close> otherwise. When every path can be opened, the
  chunks are saved under these names with \<open>i\<close> counting from 1, and unchunked output
  without an output path is saved as \<open>youtube_transcript_{video_id}_{timestamp}.txt\<close>.
\<close>

theorem chunk_filenames:
  "(out \<noteq> [] \<and> 1 < n \<longrightarrow>
      chunk_filename (Some out) video_id n i
        = fst (splitext out) @ ''_chunk_'' @ str_int i @ snd (splitext out)
      \<and> fst (splitext out) @ snd (splitext out) = out)
   \<and> (out \<noteq> [] \<and> n \<le> 1 \<longrightarrow> chunk_filename (Some out) video_id n i = out)
   \<and> (n \<le> 1 \<longrightarrow>
        chunk_filename None video_id n i = ''transcript_chunk_'' @ str_int i @ ''_'' @ video_id @ ''.txt'')
   \<and> ((\<forall>path. open_error w path = None) \<longrightarrow>
        fst (save_output w output video_id (Chunks cs))
          = Inr (map (\<lambda>k. chunk_filename output video_id (length cs) (1 + int k)) [0..<length cs])
        \<and> fst (save_output w None video_id (Text t))
          = Inr [''youtube_transcript_'' @ video_id @ ''_'' @ now w @ ''.txt''])"
proof (intro conjI impI)
  assume "out \<noteq> [] \<and> 1 < n"
  then show "chunk_filename (Some out) video_id n i
        = fst (splitext out) @ ''_chunk_'' @ str_int i @ snd (splitext out)"
    by (simp add: chunk_filename_def split: prod.split)
next
  show "fst (splitext out) @ snd (splitext out) = out" by (rule splitext_concat)
next
  assume "out \<noteq> [] \<and> n \<le> 1"
  then show "chunk_filename (Some out) video_id n i = out"
    by (simp add: chunk_filename_def)
next
  assume "n \<le> 1"
  then show "chunk_filename None video_id n i
      = ''transcript_chunk_'' @ str_int i @ ''_'' @ video_id @ ''.txt''"
    by (simp add: chunk_filename_def)
next
  assume ok: "\<forall>path. open_error w path = None"
  from save_chunks_names [OF ok, of "output" video_id "length cs" 1 cs]
  show "fst (save_output w output video_id (Chunks cs))
          = Inr (map (\<lambda>k. chunk_filename output video_id (length cs) (1 + int k)) [0..<length cs])"
    by (auto simp: save_output_def)
next
  assume ok: "\<forall>path. open_error w path = None"
  then have "fst (save_to_file w t None (Some video_id))
     = Inr (''youtube_transcript_'' @ video_id @ ''_'' @ now w @ ''.txt'')"
    using save_to_file_default [of w "Some video_id" t] by (simp add: str_opt_def)
  then show "fst (save_output w None video_id (Text t))
          = Inr [''youtube_transcript_'' @ video_id @ ''_'' @ now w @ ''.txt'']"
    by (cases "save_to_file w t None (Some video_id)") (simp add: save_output_def)
qed

lemmas filename_eval =
  chunk_filename_def spec_chunk_filename_def splitext_def rfind_def leading_dots_loop.simps
  py_slice_def str_int_def str_nat.simps digit_char_def

theorem chunk_filenames_witness:
  "''out.txt'' \<noteq> [] \<and> (1::nat) < 2
   \<and> chunk_filename (Some ''out.txt'') ''abc12345678'' 2 1 = ''out_chunk_1.txt''
   \<and> chunk_filename (Some ''out.txt'') ''abc12345678'' 1 1 = ''out.txt''
   \<and> chunk_filename None ''abc12345678'' 1 1 = ''transcript_chunk_1_abc12345678.txt''
   \<and> open_error quiet_world = (\<lambda>path. None)
   \<and> fst (save_output quiet_world (Some ''out.txt'') ''abc12345678'' (Chunks [''ab'', ''cd'']))
       = Inr [''out_chunk_1.txt'', ''out_chunk_2.txt'']
   \<and> fst (save_output quiet_world None ''abc12345678'' (Text ''abcd''))
       = Inr [''youtube_transcript_abc12345678_20240131_235959.txt'']"
proof -
  have 1: "chunk_filename (Some ''out.txt'') ''abc12345678'' 2 1 = ''out_chunk_1.txt''"
    using chunk_filenames [of "''out.txt''" 2 "''abc12345678''" 1]
    by (simp add: splitext_def rfind_def leading_dots_loop.simps py_slice_def str_int_def
        str_nat.simps digit_char_def)
  have 2: "chunk_filename (Some ''out.txt'') ''abc12345678'' 1 1 = ''out.txt''"
    using chunk_filenames [of "''out.txt''" 1 "''abc12345678''" 1] by simp
  have 3: "chunk_filename None ''abc12345678'' 1 1 = ''transcript_chunk_1_abc12345678.txt''"
    using chunk_filenames [of _ 1 "''abc12345678''" 1]
    by (simp add: str_int_def str_nat.simps digit_char_def)
  have q: "open_error quiet_world = (\<lambda>path. None)" by (simp add: quiet_world_def)
  have 4: "fst (save_output quiet_world (Some ''out.txt'') ''abc12345678'' (Chunks [''ab'', ''cd'']))
       = Inr [''out_chunk_1.txt'', ''out_chunk_2.txt'']"
    using chunk_filenames [of _ _ "''abc12345678''" _ quiet_world "Some ''out.txt''" "[''ab'', ''cd'']"] q
    by (simp add: filename_eval upt_rec)
  have 5: "fst (save_output quiet_world None ''abc12345678'' (Text ''abcd''))
       = Inr [''youtube_transcript_abc12345678_20240131_235959.txt'']"
    using chunk_filenames [of _ _ "''abc12345678''" _ quiet_world _ _ "''abcd''"] q
    by (simp add: quiet_world_def)
  from 1 2 3 4 5 q show ?thesis by simp
qed

text \<open>
  C8 as the specification states it does not hold: the names it gives differ from the
  names of \<open>main\<close> for a single chunk
  with an output path (no suffix is added), and for several chunks without one (the
  suffix is added to the default name, which carries the chunk number already).
\<close>

theorem chunk_filenames_counterexample:
  "chunk_filename (Some ''out.txt'') ''abc12345678'' 1 1 = ''out.txt''
   \<and> spec_chunk_filename (Some ''out.txt'') ''abc12345678'' 1 = ''out_chunk_1.txt''
   \<and> chunk_filename (Some ''out.txt'') ''abc12345678'' 1 1
       \<noteq> spec_chunk_filename (Some ''out.txt'') ''abc12345678'' 1
   \<and> chunk_filename None ''abc12345678'' 2 1 = ''transcript_chunk_1_abc12345678_chunk_1.txt''
   \<and> spec_chunk_filename None ''abc12345678'' 1 = ''transcript_chunk_1_abc12345678.txt''
   \<and> chunk_filename None ''abc12345678'' 2 1 \<noteq> spec_chunk_filename None ''abc12345678'' 1"
  by (simp add: filename_eval)

subsection \<open>Default preference lists\<close>


subsection \<open>Video identifiers\<close>

text \<open>
  The identifier examples of the specification: a short link, a watch link with a
  further parameter, a bare identifier, and a string that is none of these.
\<close>

lemmas video_id_eval =
  extract_video_id_def pattern1_def pattern2_def starts_with_def capture_id_def id_char_def
  isalnum_def

lemma extract_video_id_examples:
  "extract_video_id ''https://youtu.be/abc12345678'' = Inr ''abc12345678''"
  "extract_video_id ''https://www.youtube.com/watch?v=abc12345678&t=10'' = Inr ''abc12345678''"
  "extract_video_id ''abc12345678'' = Inr ''abc12345678''"
  "extract_video_id ''short'' = Inl (ValueError ''Invalid YouTube URL or video ID'')"
  by (simp_all add: video_id_eval)

end
